theory Spec2Isabelle
  imports Main "HOL-Library.Sublist" "HOL-Library.Code_Target_Nat"
begin

section \<open>Hist: history loading, fuzzy matching and the selection loop\<close>

text \<open>
  A Python string is the list of its code points, each a natural number, so that a
  character beyond U+00FF is one element, as it is for Python's \<^verbatim>\<open>len\<close> and indexing.
  Python integers are \<^typ>\<open>int\<close>. An exception is a value: a fallible function returns a
  sum whose left injection is the exception.
\<close>

type_synonym pystr = "nat list"

text \<open>A string literal of the source, written with its characters.\<close>

definition lit :: "string \<Rightarrow> pystr" where
  "lit s = map of_char s"

subsection \<open>What the program takes from Python and from rich\<close>

text \<open>
  Three things the program relies on are not part of its source. They are inputs of the
  model, and every general theorem below holds whatever they are:
  \<^item> \<^verbatim>\<open>str.lower()\<close>, which goes through the string and replaces the character at each
    position by its lowercase form: none, one or several characters, chosen from the
    character and, for the capital sigma, from its neighbours;
  \<^item> \<^verbatim>\<open>str.isprintable()\<close> of a one-character string;
  \<^item> whether \<^verbatim>\<open>console.print\<close> of rich, which reads its text as markup, raises
    \<^verbatim>\<open>MarkupError\<close> on a given text.
\<close>

record runtime =
  lower_at :: "pystr \<Rightarrow> nat \<Rightarrow> pystr"
  isprintable :: "nat \<Rightarrow> bool"
  markup_error :: "pystr \<Rightarrow> bool"

definition lower :: "runtime \<Rightarrow> pystr \<Rightarrow> pystr" where
  "lower rt s = concat (map (lower_at rt s) [0..<length s])"

text \<open>A slice \<^verbatim>\<open>xs[:n]\<close>: a negative bound counts from the end.\<close>

definition slice_to :: "'a list \<Rightarrow> int \<Rightarrow> 'a list" where
  "slice_to xs n =
     (if 0 \<le> n then take (nat n) xs else take (nat (int (length xs) + n)) xs)"

text \<open>\<^verbatim>\<open>str(n)\<close> of an integer, and \<^verbatim>\<open>sep.join(lines)\<close>.\<close>

definition digit :: "nat \<Rightarrow> nat" where
  "digit d = 48 + d"

fun decimal :: "nat \<Rightarrow> pystr" where
  "decimal n = (if n < 10 then [digit n] else decimal (n div 10) @ [digit (n mod 10)])"

declare decimal.simps [simp del]

definition str_int :: "int \<Rightarrow> pystr" where
  "str_int n = (if n < 0 then 45 # decimal (nat (- n)) else decimal (nat n))"

fun join :: "pystr \<Rightarrow> pystr list \<Rightarrow> pystr" where
  "join sep [] = []"
| "join sep [line] = line"
| "join sep (line # next_line # lines) = line @ sep @ join sep (next_line # lines)"

subsection \<open>history_loader.py\<close>

datatype exc = KeyboardInterrupt | IndexError | MarkupError

datatype source_error = SourceUnreadable

text \<open>The first loop of \<^verbatim>\<open>load_history\<close>: every history file contributes the list its
  parser returned, and a file whose parser raised is skipped.\<close>

fun collect_commands :: "(source_error + pystr list) list \<Rightarrow> pystr list \<Rightarrow> pystr list" where
  "collect_commands [] commands = commands"
| "collect_commands (parsed # files) commands =
     (case parsed of
        Inr cmds \<Rightarrow> collect_commands files (commands @ cmds)
      | Inl e \<Rightarrow> collect_commands files commands)"

text \<open>The second loop, over \<^verbatim>\<open>reversed(commands)\<close>, with the set \<^verbatim>\<open>seen\<close> and the list
  \<^verbatim>\<open>deduplicated\<close>.\<close>

fun dedup_loop :: "pystr list \<Rightarrow> pystr set \<Rightarrow> pystr list \<Rightarrow> pystr list" where
  "dedup_loop [] seen deduplicated = deduplicated"
| "dedup_loop (cmd # rest) seen deduplicated =
     (if cmd \<noteq> [] \<and> cmd \<notin> seen
      then dedup_loop rest (insert cmd seen) (deduplicated @ [cmd])
      else dedup_loop rest seen deduplicated)"

text \<open>\<^verbatim>\<open>load_history\<close>: collect, deduplicate over the reversed list, then reverse the
  result (\<^verbatim>\<open>deduplicated.reverse()\<close>). The frequency counter it also updates is read by
  no other function modelled here.\<close>

definition load_history :: "(source_error + pystr list) list \<Rightarrow> pystr list" where
  "load_history history_files =
     (let commands = collect_commands history_files [];
          deduplicated = dedup_loop (rev commands) {} []
      in rev deduplicated)"

text \<open>The loop of \<^verbatim>\<open>_fuzzy_match\<close> with its cursor \<^verbatim>\<open>pattern_idx\<close>. Reading
  \<^verbatim>\<open>pattern[pattern_idx]\<close> beyond the end of the pattern raises.\<close>

fun fuzzy_scan :: "pystr \<Rightarrow> pystr \<Rightarrow> nat \<Rightarrow> exc + bool" where
  "fuzzy_scan [] pattern pattern_idx = Inr (pattern_idx = length pattern)"
| "fuzzy_scan (ch # text_in) pattern pattern_idx =
     (if length pattern \<le> pattern_idx then Inl IndexError
      else if ch = pattern ! pattern_idx
           then (if pattern_idx + 1 = length pattern then Inr True
                 else fuzzy_scan text_in pattern (pattern_idx + 1))
           else fuzzy_scan text_in pattern pattern_idx)"

definition fuzzy_match :: "pystr \<Rightarrow> pystr \<Rightarrow> exc + bool" where
  "fuzzy_match text_in pattern =
     (if pattern = [] then Inr True else fuzzy_scan text_in pattern 0)"

text \<open>The test \<^verbatim>\<open>filter_history\<close> applies to one command: both strings lowered, then
  \<^verbatim>\<open>_fuzzy_match\<close>.\<close>

definition matches :: "runtime \<Rightarrow> pystr \<Rightarrow> pystr \<Rightarrow> exc + bool" where
  "matches rt candidate pattern = fuzzy_match (lower rt candidate) (lower rt pattern)"

fun filter_loop :: "runtime \<Rightarrow> pystr list \<Rightarrow> pystr \<Rightarrow> pystr list \<Rightarrow> exc + pystr list" where
  "filter_loop rt [] query_lower filtered = Inr filtered"
| "filter_loop rt (cmd # rest) query_lower filtered =
     (case fuzzy_match (lower rt cmd) query_lower of
        Inl e \<Rightarrow> Inl e
      | Inr hit \<Rightarrow>
          filter_loop rt rest query_lower (if hit then filtered @ [cmd] else filtered))"

definition filter_history :: "runtime \<Rightarrow> pystr list \<Rightarrow> pystr \<Rightarrow> exc + pystr list" where
  "filter_history rt history query =
     (if query = [] then Inr history
      else filter_loop rt history (lower rt query) [])"

subsection \<open>hist.py\<close>

record hist_ui =
  query :: pystr
  selected_idx :: int
  max_display :: int
  history :: "pystr list"
  filtered_history :: "pystr list"

text \<open>The fields as \<^verbatim>\<open>__init__\<close> sets them.\<close>

definition ui_init :: hist_ui where
  "ui_init = \<lparr>query = [], selected_idx = 0, max_display = 15,
              history = [], filtered_history = []\<rparr>"

text \<open>The state with which \<^verbatim>\<open>run\<close> enters the interactive loop, once the history is
  loaded.\<close>

definition start_session :: "pystr list \<Rightarrow> hist_ui" where
  "start_session loaded =
     (let ui = ui_init\<lparr>history := loaded\<rparr>
      in ui\<lparr>filtered_history := slice_to (history ui) (max_display ui)\<rparr>)"

text \<open>\<^verbatim>\<open>_render_ui\<close>: the lines of the list, with the marker U+25B6 on the selected row,
  printed as one text, then the search bar with the block U+2588 after the query. The
  commands and the query go into the markup as they are. Clearing the screen and printing
  change no field; what is left of them is that either print may raise.\<close>

definition display_lines :: "hist_ui \<Rightarrow> pystr list" where
  "display_lines ui =
     (if filtered_history ui \<noteq> [] then
        (let display_count = min (int (length (filtered_history ui))) (max_display ui)
         in map (\<lambda>i. let cmd = filtered_history ui ! i
                      in if int i = selected_idx ui
                         then lit ''[bold green]'' @ [9654, 32] @ cmd @ lit ''[/bold green]''
                         else lit ''  '' @ cmd)
                [0..<nat display_count]
            @ (if max_display ui < int (length (filtered_history ui))
               then [lit ''[dim]  ... and ''
                     @ str_int (int (length (filtered_history ui)) - max_display ui)
                     @ lit '' more[/dim]'']
               else []))
      else [lit ''[yellow]No commands match your search.[/yellow]''])"

definition search_bar :: "hist_ui \<Rightarrow> pystr" where
  "search_bar ui = [10] @ lit ''[bold blue]Search:[/bold blue] '' @ query ui @ [9608]"

definition render_ui :: "runtime \<Rightarrow> hist_ui \<Rightarrow> exc + unit" where
  "render_ui rt ui =
     (if markup_error rt (join [10] (display_lines ui)) then Inl MarkupError
      else if markup_error rt (search_bar ui) then Inl MarkupError
      else Inr ())"

definition update_filter :: "runtime \<Rightarrow> hist_ui \<Rightarrow> exc + hist_ui" where
  "update_filter rt ui =
     (case (if query ui \<noteq> [] then filter_history rt (history ui) (query ui)
            else Inr (history ui)) of
        Inl e \<Rightarrow> Inl e
      | Inr filtered \<Rightarrow>
          (let ui' = ui\<lparr>filtered_history := filtered\<rparr>
           in if int (length (filtered_history ui')) \<le> selected_idx ui'
              then Inr (ui'\<lparr>selected_idx := max 0 (int (length (filtered_history ui')) - 1)\<rparr>)
              else Inr ui'))"

definition move_selection_up :: "hist_ui \<Rightarrow> hist_ui" where
  "move_selection_up ui =
     (if 0 < selected_idx ui then ui\<lparr>selected_idx := selected_idx ui - 1\<rparr> else ui)"

definition move_selection_down :: "hist_ui \<Rightarrow> hist_ui" where
  "move_selection_down ui =
     (if selected_idx ui < int (length (filtered_history ui)) - 1
      then ui\<lparr>selected_idx := selected_idx ui + 1\<rparr> else ui)"

text \<open>\<^verbatim>\<open>_execute_command\<close> up to the call of the runner: the line that announces the
  command is printed as markup, with the command in it as it is, and may raise. Only
  after it is the command handed to \<^verbatim>\<open>runner.execute\<close>, which is modelled further down
  and returns in every case.\<close>

definition executing_line :: "pystr \<Rightarrow> pystr" where
  "executing_line command = lit ''[bold green]Executing:[/bold green] '' @ command @ [10]"

definition execute_command :: "runtime \<Rightarrow> pystr \<Rightarrow> exc + unit" where
  "execute_command rt command =
     (if markup_error rt (executing_line command) then Inl MarkupError else Inr ())"

text \<open>One pass through the body of the \<^verbatim>\<open>while True\<close> loop, on the keys still to be
  read: the screen is drawn, then a key is read and handled. The pass ends by going round
  again with the keys left over, by leaving the loop after the selected command was handed
  to the runner, by raising, or blocked in a read because no key is there yet. The keys
  are U+0003 (interrupt), U+001B (escape), \<open>[\<close>, \<open>A\<close>, \<open>B\<close>, carriage return, line feed and
  U+007F (backspace).\<close>

datatype iteration =
    Continue hist_ui pystr
  | Break pystr
  | Raise exc
  | AwaitKey
  | AwaitEscape

fun read_and_handle :: "runtime \<Rightarrow> hist_ui \<Rightarrow> pystr \<Rightarrow> iteration" where
  "read_and_handle rt ui [] = AwaitKey"
| "read_and_handle rt ui (ch # keys) =
     (if ch = 3 then Raise KeyboardInterrupt
      else if ch = 27 then
        (case keys of
           next1 # next2 # keys' \<Rightarrow>
             (if next1 = 91
              then (if next2 = 65 then Continue (move_selection_up ui) keys'
                    else if next2 = 66 then Continue (move_selection_down ui) keys'
                    else Continue ui keys')
              else Continue ui keys')
         | _ \<Rightarrow> AwaitEscape)
      else if ch = 13 \<or> ch = 10 then
        (if filtered_history ui \<noteq> [] \<and> 0 \<le> selected_idx ui
            \<and> selected_idx ui < int (length (filtered_history ui))
         then (case execute_command rt (filtered_history ui ! nat (selected_idx ui)) of
                 Inl e \<Rightarrow> Raise e
               | Inr u \<Rightarrow> Break (filtered_history ui ! nat (selected_idx ui)))
         else Continue ui keys)
      else if ch = 127 then
        (if query ui \<noteq> []
         then (case update_filter rt (ui\<lparr>query := butlast (query ui)\<rparr>) of
                 Inl e \<Rightarrow> Raise e
               | Inr ui' \<Rightarrow> Continue ui' keys)
         else Continue ui keys)
      else if isprintable rt ch then
        (case update_filter rt (ui\<lparr>query := query ui @ [ch]\<rparr>) of
           Inl e \<Rightarrow> Raise e
         | Inr ui' \<Rightarrow> Continue ui' keys)
      else Continue ui keys)"

definition loop_body :: "runtime \<Rightarrow> hist_ui \<Rightarrow> pystr \<Rightarrow> iteration" where
  "loop_body rt ui keys =
     (case render_ui rt ui of
        Inl e \<Rightarrow> Raise e
      | Inr u \<Rightarrow> read_and_handle rt ui keys)"

text \<open>\<^verbatim>\<open>_interactive_loop\<close>: the body repeated on the keys typed so far. When they are used
  up the loop is blocked in a read, at the head of the body or inside an escape sequence.
  Saving and restoring the terminal settings touches no field of the state.\<close>

datatype session =
    Finished pystr
  | Raised exc
  | Waiting hist_ui
  | WaitingEscape hist_ui

function interactive_loop :: "runtime \<Rightarrow> hist_ui \<Rightarrow> pystr \<Rightarrow> session" where
  "interactive_loop rt ui keys =
     (case loop_body rt ui keys of
        Continue ui' keys' \<Rightarrow> interactive_loop rt ui' keys'
      | Break cmd \<Rightarrow> Finished cmd
      | Raise e \<Rightarrow> Raised e
      | AwaitKey \<Rightarrow> Waiting ui
      | AwaitEscape \<Rightarrow> WaitingEscape ui)"
  by pat_completeness auto
termination
proof (relation "measure (\<lambda>(rt, ui, keys). length keys)")
  show "wf (measure (\<lambda>(rt :: runtime, ui :: hist_ui, keys :: pystr). length keys))"
    by simp
next
  fix rt :: runtime and ui :: hist_ui and keys :: pystr and ui' :: hist_ui and keys' :: pystr
  assume "loop_body rt ui keys = Continue ui' keys'"
  then have "read_and_handle rt ui keys = Continue ui' keys'"
    by (simp add: loop_body_def split: sum.splits)
  then have "length keys' < length keys"
    by (cases keys) (auto split: if_splits list.splits sum.splits)
  then show "((rt, ui', keys'), (rt, ui, keys)) \<in> measure (\<lambda>(rt, ui, keys). length keys)"
    by simp
qed

declare interactive_loop.simps [simp del]

text \<open>\<^verbatim>\<open>run\<close>, as far as the process status goes: \<^verbatim>\<open>sys.exit(1)\<close> on an empty history,
  \<^verbatim>\<open>sys.exit(0)\<close> in the handler of \<^verbatim>\<open>KeyboardInterrupt\<close>, a plain return after the loop
  was left, and any other exception passed on uncaught, on which the interpreter prints
  the traceback and ends the process with status 1. The messages \<^verbatim>\<open>run\<close> prints itself are
  fixed texts whose tags are closed, with at most a count written in digits between them;
  nothing read from the history or typed goes into them, and they are left out.\<close>

datatype process =
    Exit int
  | Returned pystr
  | Uncaught exc
  | Reading hist_ui

definition run :: "runtime \<Rightarrow> (source_error + pystr list) list \<Rightarrow> pystr \<Rightarrow> process" where
  "run rt history_files keys =
     (let loaded = load_history history_files
      in if loaded = [] then Exit 1
         else (case interactive_loop rt (start_session loaded) keys of
                 Raised KeyboardInterrupt \<Rightarrow> Exit 0
               | Raised e \<Rightarrow> Uncaught e
               | Finished cmd \<Rightarrow> Returned cmd
               | Waiting ui \<Rightarrow> Reading ui
               | WaitingEscape ui \<Rightarrow> Reading ui))"

text \<open>The states the loop can be in at the head of its body.\<close>

inductive reachable :: "runtime \<Rightarrow> hist_ui \<Rightarrow> bool" for rt :: runtime where
  start: "loaded \<noteq> [] \<Longrightarrow> reachable rt (start_session loaded)"
| step: "reachable rt ui \<Longrightarrow> loop_body rt ui keys = Continue ui' keys' \<Longrightarrow> reachable rt ui'"

text \<open>The invariant of the selection index, in the words of the specification.\<close>

definition selection_in_range :: "hist_ui \<Rightarrow> bool" where
  "selection_in_range ui =
     (if filtered_history ui \<noteq> []
      then 0 \<le> selected_idx ui \<and> selected_idx ui < int (length (filtered_history ui))
      else selected_idx ui = 0)"

subsection \<open>runner.py\<close>

text \<open>The clock is an input: \<^verbatim>\<open>datetime.now()\<close> is a record of its fields, and
  \<^verbatim>\<open>strftime("%Y-%m-%d %H:%M:%S")\<close> writes them in decimal, padded with zeros to four
  digits for the year and to two for the others.\<close>

record datetime =
  year :: nat
  month :: nat
  day :: nat
  hour :: nat
  minute :: nat
  second :: nat

definition zero_pad :: "nat \<Rightarrow> nat \<Rightarrow> pystr" where
  "zero_pad width n = replicate (width - length (decimal n)) 48 @ decimal n"

definition strftime :: "datetime \<Rightarrow> pystr" where
  "strftime now =
     zero_pad 4 (year now) @ lit ''-'' @ zero_pad 2 (month now) @ lit ''-''
     @ zero_pad 2 (day now) @ lit '' '' @ zero_pad 2 (hour now) @ lit '':''
     @ zero_pad 2 (minute now) @ lit '':'' @ zero_pad 2 (second now)"

definition valid_datetime :: "datetime \<Rightarrow> bool" where
  "valid_datetime now =
     (1000 \<le> year now \<and> year now \<le> 9999 \<and> 1 \<le> month now \<and> month now \<le> 12
      \<and> 1 \<le> day now \<and> day now \<le> 31 \<and> hour now < 24 \<and> minute now < 60
      \<and> second now < 60)"

text \<open>The shape \<^verbatim>\<open>YYYY-MM-DD HH:MM:SS\<close>, in the words of the specification: digits
  (U+0030 to U+0039), hyphens (45), a space (32) and colons (58).\<close>

definition is_digit :: "nat \<Rightarrow> bool" where
  "is_digit c = (48 \<le> c \<and> c \<le> 57)"

definition timestamp_shape :: "pystr \<Rightarrow> bool" where
  "timestamp_shape s =
     (length s = 19 \<and> s ! 4 = 45 \<and> s ! 7 = 45 \<and> s ! 10 = 32
      \<and> s ! 13 = 58 \<and> s ! 16 = 58
      \<and> list_all (\<lambda>i. is_digit (s ! i)) [0, 1, 2, 3, 5, 6, 8, 9, 11, 12, 14, 15, 17, 18])"

text \<open>The log file is its content. What the file system does to the write is an input:
  nothing, a failure to open the file, or a failure after some characters were written.\<close>

datatype os_error = OSError

datatype log_fault = NoFault | OpenFails | WriteFails nat

definition log_entry :: "datetime \<Rightarrow> pystr \<Rightarrow> pystr" where
  "log_entry now command = lit ''['' @ strftime now @ lit ''] '' @ command @ [10]"

text \<open>The \<^verbatim>\<open>with open(self.log_file, 'a')\<close> block: the result of the block and the
  content of the file after it.\<close>

definition append_to_log :: "log_fault \<Rightarrow> pystr \<Rightarrow> pystr \<Rightarrow> (os_error + unit) \<times> pystr" where
  "append_to_log fault log_file entry =
     (case fault of
        OpenFails \<Rightarrow> (Inl OSError, log_file)
      | WriteFails n \<Rightarrow> (Inl OSError, log_file @ take n entry)
      | NoFault \<Rightarrow> (Inr (), log_file @ entry))"

text \<open>\<^verbatim>\<open>_log_command\<close>: the block inside \<^verbatim>\<open>try\<close>, and \<^verbatim>\<open>except Exception: pass\<close>.\<close>

definition log_command ::
  "log_fault \<Rightarrow> datetime \<Rightarrow> pystr \<Rightarrow> pystr \<Rightarrow> (os_error + unit) \<times> pystr" where
  "log_command fault now command log_file =
     (case append_to_log fault log_file (log_entry now command) of
        (Inl e, log_file') \<Rightarrow> (Inr (), log_file')
      | (Inr u, log_file') \<Rightarrow> (Inr u, log_file'))"

text \<open>\<^verbatim>\<open>execute\<close>: \<^verbatim>\<open>subprocess.run\<close> either raises or gives a return code, and that
  outcome is an input.\<close>

definition execute ::
  "log_fault \<Rightarrow> datetime \<Rightarrow> os_error + int \<Rightarrow> pystr \<Rightarrow> bool \<Rightarrow> pystr
   \<Rightarrow> (os_error + bool) \<times> pystr" where
  "execute fault now subprocess_run command log log_file =
     (case (if log then log_command fault now command log_file else (Inr (), log_file)) of
        (Inl e, log_file') \<Rightarrow> (Inl e, log_file')
      | (Inr u, log_file') \<Rightarrow>
          (case subprocess_run of
             Inl e \<Rightarrow> (Inr False, log_file')
           | Inr returncode \<Rightarrow> (Inr (returncode = 0), log_file')))"

subsection \<open>A runtime for the examples\<close>

text \<open>
  The closed examples below need one runtime to compute with. This one stands for Python
  and rich on the texts that occur in the examples, which are written with code points
  below 256, the capital I with dot above (U+0130) and the combining dot above (U+0307):
  \<^item> lowering moves the ASCII capitals and the Latin-1 capitals (U+00C0 to U+00DE without
    the multiplication sign U+00D7) up by 32, turns U+0130 into \<open>i\<close> followed by U+0307,
    and leaves the other characters;
  \<^item> printable are the characters that are neither control characters nor the no-break
    space nor the soft hyphen;
  \<^item> a text is refused as markup when one of its closing tags closes nothing: a tag is
    \<open>[\<close>, a small letter or one of \<open>#\<close>, \<open>/\<close>, \<open>@\<close>, then characters other than \<open>[\<close> up to
    the next \<open>]\<close>; a tag that starts with \<open>/\<close> closes the last open tag of the same name,
    \<open>[/]\<close> the last open tag.
\<close>

definition sample_lower_at :: "pystr \<Rightarrow> nat \<Rightarrow> pystr" where
  "sample_lower_at s i =
     (let c = s ! i
      in if (65 \<le> c \<and> c \<le> 90) \<or> (192 \<le> c \<and> c \<le> 222 \<and> c \<noteq> 215) then [c + 32]
         else if c = 304 then [105, 775]
         else [c])"

definition sample_isprintable :: "nat \<Rightarrow> bool" where
  "sample_isprintable c =
     ((32 \<le> c \<and> c \<le> 126) \<or> (161 \<le> c \<and> c \<le> 255 \<and> c \<noteq> 173) \<or> c = 304 \<or> c = 775)"

definition tag_start :: "nat \<Rightarrow> bool" where
  "tag_start c = ((97 \<le> c \<and> c \<le> 122) \<or> c = 35 \<or> c = 47 \<or> c = 64)"

fun closes_nothing :: "pystr list \<Rightarrow> pystr option \<Rightarrow> pystr \<Rightarrow> bool" where
  "closes_nothing opened tag [] = False"
| "closes_nothing opened None (c # cs) =
     (if c = 91 then closes_nothing opened (Some []) cs else closes_nothing opened None cs)"
| "closes_nothing opened (Some tag) (c # cs) =
     (if c = 91 then closes_nothing opened (Some []) cs
      else if c = 93 then
        (if tag = [] then closes_nothing opened None cs
         else if hd tag = 47 then
           (if tl tag = []
            then (if opened = [] then True else closes_nothing (tl opened) None cs)
            else (if tl tag \<in> set opened
                  then closes_nothing (remove1 (tl tag) opened) None cs
                  else True))
         else closes_nothing (tag # opened) None cs)
      else if tag = [] \<and> \<not> tag_start c then closes_nothing opened None cs
      else closes_nothing opened (Some (tag @ [c])) cs)"

definition sample_runtime :: runtime where
  "sample_runtime =
     \<lparr>lower_at = sample_lower_at, isprintable = sample_isprintable,
      markup_error = closes_nothing [] None\<rparr>"

section \<open>Properties\<close>

subsection \<open>The fuzzy matcher\<close>

text \<open>From a cursor inside the pattern the scan never reads past the end of the pattern,
  and it answers whether the rest of the pattern is a subsequence of the string scanned.\<close>

lemma fuzzy_scan_subseq:
  "pattern_idx < length pattern \<Longrightarrow>
   fuzzy_scan s pattern pattern_idx = Inr (subseq (drop pattern_idx pattern) s)"
proof (induction s arbitrary: pattern_idx)
  case Nil
  then show ?case by simp
next
  case (Cons ch s)
  have d: "drop pattern_idx pattern = pattern ! pattern_idx # drop (Suc pattern_idx) pattern"
    using Cons.prems by (simp add: Cons_nth_drop_Suc)
  show ?case
  proof (cases "ch = pattern ! pattern_idx")
    case True
    show ?thesis
    proof (cases "Suc pattern_idx = length pattern")
      case True
      with \<open>ch = pattern ! pattern_idx\<close> Cons.prems d show ?thesis by simp
    next
      case False
      then have "Suc pattern_idx < length pattern" using Cons.prems by simp
      from Cons.IH [OF this] \<open>ch = pattern ! pattern_idx\<close> False Cons.prems d
      show ?thesis by simp
    qed
  next
    case False
    with Cons.IH [OF Cons.prems] Cons.prems d show ?thesis by simp
  qed
qed

lemma fuzzy_match_subseq: "fuzzy_match s pattern = Inr (subseq pattern s)"
  by (cases "pattern = []") (simp_all add: fuzzy_match_def fuzzy_scan_subseq)

lemma lower_Nil: "lower rt [] = []"
  by (simp add: lower_def)

text \<open>
  Claim C3, as stated: the matcher answers true exactly when the lowered pattern is a
  subsequence of the lowered candidate, the empty pattern matches always, and a pattern
  longer than the candidate matches never. The last part fails where lowering makes a
  string longer. The candidate is the one character U+0130, capital I with dot above; the
  pattern is the two characters \<open>i\<close> and U+0307, combining dot above, which is what
  \<^verbatim>\<open>str.lower()\<close> makes of U+0130. The pattern is longer than the candidate and matches
  it, and the filter keeps the command.
\<close>

theorem matches_counterexample:
  "length [304 :: nat] < length [105 :: nat, 775]
   \<and> matches sample_runtime [304] [105, 775] = Inr True
   \<and> filter_history sample_runtime [[304]] [105, 775] = Inr [[304]]"
  by code_simp

text \<open>
  Claim C3, amended. For every candidate and every pattern, whatever \<^verbatim>\<open>str.lower()\<close>
  does, the matcher returns (it never raises) and its answer is true exactly when the
  lowered pattern is a subsequence of the lowered candidate: the characters of the pattern
  in the same order, each at a position of its own, not necessarily next to each other. In
  particular the empty pattern matches every candidate, and a pattern whose lowered form
  is longer than the lowered form of the candidate matches never. The example after the
  theorem folds capitals on both sides: \<open>gST\<close> matches \<open>Git STATUS\<close>, which the scan
  without lowering does not find, and \<open>lsOF\<close>, longer than \<open>LS\<close> after lowering, does not
  match it.
\<close>

theorem matches_iff_subseq:
  "matches rt candidate pattern = Inr (subseq (lower rt pattern) (lower rt candidate))
   \<and> matches rt candidate [] = Inr True
   \<and> (length (lower rt candidate) < length (lower rt pattern) \<longrightarrow>
        matches rt candidate pattern = Inr False)"
  by (simp add: matches_def fuzzy_match_subseq lower_Nil)

theorem matches_iff_subseq_witness:
  "lower sample_runtime (lit ''Git STATUS'') = lit ''git status''
   \<and> matches sample_runtime (lit ''Git STATUS'') (lit ''gST'') = Inr True
   \<and> fuzzy_match (lit ''Git STATUS'') (lit ''gST'') = Inr False
   \<and> length (lower sample_runtime (lit ''LS'')) < length (lower sample_runtime (lit ''lsOF''))
   \<and> matches sample_runtime (lit ''LS'') (lit ''lsOF'') = Inr False"
proof -
  have a: "lower sample_runtime (lit ''Git STATUS'') = lit ''git status''" by code_simp
  have b: "matches sample_runtime (lit ''Git STATUS'') (lit ''gST'') = Inr True" by code_simp
  have c: "fuzzy_match (lit ''Git STATUS'') (lit ''gST'') = Inr False" by code_simp
  have h: "length (lower sample_runtime (lit ''LS'')) < length (lower sample_runtime (lit ''lsOF''))"
    by code_simp
  from matches_iff_subseq [of sample_runtime "lit ''LS''" "lit ''lsOF''"] h
  have d: "matches sample_runtime (lit ''LS'') (lit ''lsOF'') = Inr False" by blast
  from a b c h d show ?thesis by blast
qed

subsection \<open>The filter\<close>

lemma filter_loop_eq:
  "filter_loop rt hs ql acc = Inr (acc @ filter (\<lambda>cmd. subseq ql (lower rt cmd)) hs)"
  by (induction hs arbitrary: acc) (simp_all add: fuzzy_match_subseq)

lemma filter_history_subseq:
  "filter_history rt hist q = Inr (filter (\<lambda>cmd. subseq (lower rt q) (lower rt cmd)) hist)"
  by (simp add: filter_history_def filter_loop_eq lower_Nil)

text \<open>
  Claim C4. For every history and every query, the filter returns (it never raises)
  exactly the commands of the history on which the matcher answers true, in the order
  they have in the history; on the empty query it returns the history itself.
\<close>

theorem filter_history_exact:
  "filter_history rt hist q = Inr (filter (\<lambda>cmd. matches rt cmd q = Inr True) hist)
   \<and> filter_history rt hist [] = Inr hist"
  by (simp add: filter_history_def filter_loop_eq matches_def fuzzy_match_subseq lower_Nil)

theorem filter_history_exact_witness:
  "filter_history sample_runtime
      [lit ''ls -la'', lit ''cd /tmp'', lit ''git status'', lit ''python script.py''] (lit ''PsP'')
     = Inr [lit ''python script.py'']
   \<and> filter_history sample_runtime [lit ''ls -la'', lit ''cd /tmp''] []
     = Inr [lit ''ls -la'', lit ''cd /tmp'']"
proof -
  have e: "filter (\<lambda>cmd. matches sample_runtime cmd (lit ''PsP'') = Inr True)
             [lit ''ls -la'', lit ''cd /tmp'', lit ''git status'', lit ''python script.py'']
           = [lit ''python script.py'']"
    by code_simp
  have a: "filter_history sample_runtime
      [lit ''ls -la'', lit ''cd /tmp'', lit ''git status'', lit ''python script.py''] (lit ''PsP'')
     = Inr [lit ''python script.py'']"
    using filter_history_exact
      [of sample_runtime "[lit ''ls -la'', lit ''cd /tmp'', lit ''git status'', lit ''python script.py'']"
          "lit ''PsP''"]
    by (simp only: e)
  have b: "filter_history sample_runtime [lit ''ls -la'', lit ''cd /tmp''] []
     = Inr [lit ''ls -la'', lit ''cd /tmp'']"
    by (rule filter_history_exact [THEN conjunct2])
  from a b show ?thesis by (rule conjI)
qed

subsection \<open>Loading the history\<close>

lemma collect_commands_eq:
  "collect_commands files commands =
     commands @ concat (map (\<lambda>p. case p of Inr cmds \<Rightarrow> cmds | Inl e \<Rightarrow> []) files)"
  by (induction files arbitrary: commands) (simp_all split: sum.splits)

lemma remdups_snoc:
  "remdups (ys @ [c]) = remdups (filter (\<lambda>y. y \<noteq> c) ys) @ [c]"
  by (induction ys) auto

lemma dedup_loop_eq:
  "dedup_loop xs seen acc =
     acc @ rev (remdups (rev (filter (\<lambda>c. c \<noteq> [] \<and> c \<notin> seen) xs)))"
proof (induction xs arbitrary: seen acc)
  case Nil
  then show ?case by simp
next
  case (Cons c xs)
  show ?case
  proof (cases "c \<noteq> [] \<and> c \<notin> seen")
    case True
    have f: "filter (\<lambda>y. y \<noteq> c) (rev (filter (\<lambda>c. c \<noteq> [] \<and> c \<notin> seen) xs))
             = rev (filter (\<lambda>ca. ca \<noteq> [] \<and> ca \<notin> insert c seen) xs)"
      by (simp add: rev_filter [symmetric] conj_commute conj_left_commute)
    have "dedup_loop (c # xs) seen acc = dedup_loop xs (insert c seen) (acc @ [c])"
      using True by simp
    also have "\<dots> = acc @ c # rev (remdups (rev (filter (\<lambda>ca. ca \<noteq> [] \<and> ca \<notin> insert c seen) xs)))"
      by (simp add: Cons.IH)
    also have "\<dots> = acc @ rev (remdups (rev (filter (\<lambda>c. c \<noteq> [] \<and> c \<notin> seen) xs) @ [c]))"
      by (simp only: remdups_snoc f rev_append rev.simps append_Nil append_Cons)
    also have "\<dots> = acc @ rev (remdups (rev (filter (\<lambda>c. c \<noteq> [] \<and> c \<notin> seen) (c # xs))))"
      using True by simp
    finally show ?thesis .
  next
    case False
    then show ?thesis using Cons.IH [of seen acc] by auto
  qed
qed

text \<open>What \<^const>\<open>load_history\<close> returns for any files: the non-empty commands in the
  order they were read, oldest first, each kept at its last occurrence
  (\<^const>\<open>remdups\<close> keeps the last of equal elements).\<close>

lemma load_history_remdups:
  "load_history files =
     remdups (filter (\<lambda>c. c \<noteq> [])
       (concat (map (\<lambda>p. case p of Inr cmds \<Rightarrow> cmds | Inl e \<Rightarrow> []) files)))"
  by (simp add: load_history_def collect_commands_eq dedup_loop_eq rev_filter [symmetric])

text \<open>
  Claim C2. The loaded history should hold every command once, at its most recent
  occurrence, the most recent command first. On one file with the lines \<open>ls\<close>, \<open>cd\<close>,
  \<open>ls\<close>, \<open>vi\<close> (oldest first) that is \<open>vi\<close>, \<open>ls\<close>, \<open>cd\<close>. The code keeps the right
  occurrences but returns them oldest first: the list built most recent first is reversed
  once more before it is returned.
\<close>

theorem load_history_oldest_first:
  "load_history [Inr [lit ''ls'', lit ''cd'', lit ''ls'', lit ''vi'']]
     = [lit ''cd'', lit ''ls'', lit ''vi'']"
  by code_simp

subsection \<open>The start of a session\<close>

lemma start_session_fields:
  "query (start_session loaded) = [] \<and> selected_idx (start_session loaded) = 0
   \<and> history (start_session loaded) = loaded
   \<and> filtered_history (start_session loaded) = take 15 loaded
   \<and> max_display (start_session loaded) = 15"
  by (simp add: start_session_def ui_init_def slice_to_def Let_def)

text \<open>
  Claim C1. At the start of a session the query should be empty, the selected index 0 and
  the filtered list the whole loaded history, the cap of fifteen entries being for the
  display only. With sixteen commands loaded the code starts on the first fifteen. Typing
  one character and deleting it leads to the same empty query with all sixteen commands in
  the filtered list: the path through \<^const>\<open>update_filter\<close> does not cut the list.
\<close>

theorem start_session_truncated:
  "query (start_session
      [lit ''c01'', lit ''c02'', lit ''c03'', lit ''c04'', lit ''c05'', lit ''c06'',
      lit ''c07'', lit ''c08'', lit ''c09'', lit ''c10'', lit ''c11'', lit ''c12'',
      lit ''c13'', lit ''c14'', lit ''c15'', lit ''c16'']) = []
   \<and> selected_idx (start_session
      [lit ''c01'', lit ''c02'', lit ''c03'', lit ''c04'', lit ''c05'', lit ''c06'',
      lit ''c07'', lit ''c08'', lit ''c09'', lit ''c10'', lit ''c11'', lit ''c12'',
      lit ''c13'', lit ''c14'', lit ''c15'', lit ''c16'']) = 0
   \<and> filtered_history (start_session
      [lit ''c01'', lit ''c02'', lit ''c03'', lit ''c04'', lit ''c05'', lit ''c06'',
      lit ''c07'', lit ''c08'', lit ''c09'', lit ''c10'', lit ''c11'', lit ''c12'',
      lit ''c13'', lit ''c14'', lit ''c15'', lit ''c16''])
     = [lit ''c01'', lit ''c02'', lit ''c03'', lit ''c04'', lit ''c05'', lit ''c06'',
      lit ''c07'', lit ''c08'', lit ''c09'', lit ''c10'', lit ''c11'', lit ''c12'',
      lit ''c13'', lit ''c14'', lit ''c15'']
   \<and> interactive_loop sample_runtime (start_session
      [lit ''c01'', lit ''c02'', lit ''c03'', lit ''c04'', lit ''c05'', lit ''c06'',
      lit ''c07'', lit ''c08'', lit ''c09'', lit ''c10'', lit ''c11'', lit ''c12'',
      lit ''c13'', lit ''c14'', lit ''c15'', lit ''c16'']) [99, 127]
     = Waiting \<lparr>query = [], selected_idx = 0, max_display = 15,
         history = [lit ''c01'', lit ''c02'', lit ''c03'', lit ''c04'', lit ''c05'', lit ''c06'',
      lit ''c07'', lit ''c08'', lit ''c09'', lit ''c10'', lit ''c11'', lit ''c12'',
      lit ''c13'', lit ''c14'', lit ''c15'', lit ''c16''],
         filtered_history = [lit ''c01'', lit ''c02'', lit ''c03'', lit ''c04'', lit ''c05'', lit ''c06'',
      lit ''c07'', lit ''c08'', lit ''c09'', lit ''c10'', lit ''c11'', lit ''c12'',
      lit ''c13'', lit ''c14'', lit ''c15'', lit ''c16'']\<rparr>"
  by code_simp

subsection \<open>The selection index stays in range\<close>

text \<open>Recomputing the filtered list never raises; the new list and the new index are
  these.\<close>

lemma update_filter_eq:
  "update_filter rt ui =
     Inr (ui\<lparr>filtered_history := filter (\<lambda>cmd. subseq (lower rt (query ui)) (lower rt cmd)) (history ui),
             selected_idx :=
               (if int (length (filter (\<lambda>cmd. subseq (lower rt (query ui)) (lower rt cmd)) (history ui)))
                     \<le> selected_idx ui
                then max 0 (int (length (filter (\<lambda>cmd. subseq (lower rt (query ui)) (lower rt cmd)) (history ui))) - 1)
                else selected_idx ui)\<rparr>)"
  by (cases "query ui = []") (simp_all add: update_filter_def filter_history_subseq Let_def lower_Nil)

lemma update_filter_in_range:
  "0 \<le> selected_idx ui \<Longrightarrow> update_filter rt ui = Inr ui' \<Longrightarrow> selection_in_range ui'"
  by (auto simp: update_filter_eq selection_in_range_def split: if_splits)

lemma move_up_in_range:
  "selection_in_range ui \<Longrightarrow> selection_in_range (move_selection_up ui)"
  by (auto simp: selection_in_range_def move_selection_up_def)

lemma move_down_in_range:
  "selection_in_range ui \<Longrightarrow> selection_in_range (move_selection_down ui)"
  by (auto simp: selection_in_range_def move_selection_down_def)

lemma in_range_nonneg: "selection_in_range ui \<Longrightarrow> 0 \<le> selected_idx ui"
  by (auto simp: selection_in_range_def split: if_splits)

lemma read_and_handle_in_range:
  assumes "selection_in_range ui" and "read_and_handle rt ui keys = Continue ui' keys'"
  shows "selection_in_range ui'"
proof (cases keys)
  case Nil
  with assms show ?thesis by simp
next
  case (Cons ch rest)
  have nn: "0 \<le> selected_idx ui" using assms(1) by (rule in_range_nonneg)
  from assms(2) Cons show ?thesis
    using assms(1) move_up_in_range [OF assms(1)] move_down_in_range [OF assms(1)]
      update_filter_in_range [of "ui\<lparr>query := butlast (query ui)\<rparr>" rt ui']
      update_filter_in_range [of "ui\<lparr>query := query ui @ [ch]\<rparr>" rt ui'] nn
    by (auto split: if_splits list.splits sum.splits)
qed

lemma loop_body_Continue:
  "loop_body rt ui keys = Continue ui' keys' \<longleftrightarrow>
   render_ui rt ui = Inr () \<and> read_and_handle rt ui keys = Continue ui' keys'"
  by (auto simp: loop_body_def split: sum.splits)

lemma loop_body_in_range:
  "selection_in_range ui \<Longrightarrow> loop_body rt ui keys = Continue ui' keys' \<Longrightarrow>
   selection_in_range ui'"
  by (auto simp: loop_body_Continue intro: read_and_handle_in_range)

lemma reachable_in_range: "reachable rt ui \<Longrightarrow> selection_in_range ui"
proof (induction rule: reachable.induct)
  case (start loaded)
  then show ?case
    by (cases loaded) (simp_all add: selection_in_range_def start_session_fields)
next
  case (step ui keys ui' keys')
  then show ?case by (blast intro: loop_body_in_range)
qed

text \<open>
  Claim C5. From every state the loop can reach, every pass through the loop body that
  goes round again (a character appended to the query, a backspace, an arrow up or down,
  and also a key that is ignored) ends in a state where the selected index is at least 0
  and below the length of the filtered list when that list is not empty, and is 0 when it
  is empty.
\<close>

theorem selection_invariant:
  "reachable rt ui \<Longrightarrow> loop_body rt ui keys = Continue ui' keys' \<Longrightarrow> selection_in_range ui'"
  by (blast intro: loop_body_in_range reachable_in_range)

theorem selection_invariant_witness:
  "reachable sample_runtime \<lparr>query = [], selected_idx = 1, max_display = 15,
       history = [lit ''ls'', lit ''cd''], filtered_history = [lit ''ls'', lit ''cd'']\<rparr>
   \<and> loop_body sample_runtime \<lparr>query = [], selected_idx = 1, max_display = 15,
       history = [lit ''ls'', lit ''cd''], filtered_history = [lit ''ls'', lit ''cd'']\<rparr> (lit ''c'')
     = Continue \<lparr>query = lit ''c'', selected_idx = 0, max_display = 15,
       history = [lit ''ls'', lit ''cd''], filtered_history = [lit ''cd'']\<rparr> []
   \<and> selection_in_range \<lparr>query = lit ''c'', selected_idx = 0, max_display = 15,
       history = [lit ''ls'', lit ''cd''], filtered_history = [lit ''cd'']\<rparr>"
proof -
  have r0: "reachable sample_runtime (start_session [lit ''ls'', lit ''cd''])"
    by (rule reachable.start) simp
  have l0: "loop_body sample_runtime (start_session [lit ''ls'', lit ''cd'']) [27, 91, 66]
      = Continue \<lparr>query = [], selected_idx = 1, max_display = 15,
          history = [lit ''ls'', lit ''cd''], filtered_history = [lit ''ls'', lit ''cd'']\<rparr> []"
    by code_simp
  have r1: "reachable sample_runtime \<lparr>query = [], selected_idx = 1, max_display = 15,
       history = [lit ''ls'', lit ''cd''], filtered_history = [lit ''ls'', lit ''cd'']\<rparr>"
    by (rule reachable.step [OF r0 l0])
  have l1: "loop_body sample_runtime \<lparr>query = [], selected_idx = 1, max_display = 15,
       history = [lit ''ls'', lit ''cd''], filtered_history = [lit ''ls'', lit ''cd'']\<rparr> (lit ''c'')
     = Continue \<lparr>query = lit ''c'', selected_idx = 0, max_display = 15,
       history = [lit ''ls'', lit ''cd''], filtered_history = [lit ''cd'']\<rparr> []"
    by code_simp
  from selection_invariant [OF r1 l1] r1 l1 show ?thesis by blast
qed

subsection \<open>The arrow keys\<close>

text \<open>
  Claim C6, as stated: in every state, also with an empty filtered list, the arrow down
  sets the selected index to the smaller of the last position and the index plus one. In
  the state reached from the history \<open>ls\<close> by typing \<open>x\<close> the filtered list is empty and
  the index is 0; the arrow down leaves it at 0, the formula gives \<open>-1\<close>.
\<close>

theorem move_down_empty_counterexample:
  "interactive_loop sample_runtime (start_session [lit ''ls'']) (lit ''x'')
     = Waiting \<lparr>query = lit ''x'', selected_idx = 0, max_display = 15,
         history = [lit ''ls''], filtered_history = []\<rparr>
   \<and> selected_idx (move_selection_down \<lparr>query = lit ''x'', selected_idx = 0, max_display = 15,
         history = [lit ''ls''], filtered_history = []\<rparr>) = 0
   \<and> min (int (length (filtered_history \<lparr>query = lit ''x'', selected_idx = 0, max_display = 15,
         history = [lit ''ls''], filtered_history = []\<rparr>)) - 1)
          (selected_idx \<lparr>query = lit ''x'', selected_idx = 0, max_display = 15,
         history = [lit ''ls''], filtered_history = []\<rparr> + 1) = - 1
   \<and> selected_idx (move_selection_down \<lparr>query = lit ''x'', selected_idx = 0, max_display = 15,
         history = [lit ''ls''], filtered_history = []\<rparr>)
     \<noteq> min (int (length (filtered_history \<lparr>query = lit ''x'', selected_idx = 0, max_display = 15,
         history = [lit ''ls''], filtered_history = []\<rparr>)) - 1)
          (selected_idx \<lparr>query = lit ''x'', selected_idx = 0, max_display = 15,
         history = [lit ''ls''], filtered_history = []\<rparr> + 1)"
  by code_simp

text \<open>
  Claim C6, amended. In every state whose selected index is not beyond the last position of
  the filtered list, the arrow down sets the index to the smaller of the last position and
  the index plus one; in every other state, among them every state with an empty filtered
  list and a non-negative index, it leaves the index as it is.
\<close>

theorem move_selection_down_index:
  "(selected_idx ui \<le> int (length (filtered_history ui)) - 1 \<longrightarrow>
      selected_idx (move_selection_down ui)
        = min (int (length (filtered_history ui)) - 1) (selected_idx ui + 1))
   \<and> (int (length (filtered_history ui)) - 1 < selected_idx ui \<longrightarrow>
      selected_idx (move_selection_down ui) = selected_idx ui)"
  by (simp add: move_selection_down_def)

theorem move_selection_down_index_witness:
  "selected_idx (move_selection_down \<lparr>query = [], selected_idx = 0, max_display = 15,
       history = [lit ''ls'', lit ''cd''], filtered_history = [lit ''ls'', lit ''cd'']\<rparr>) = 1
   \<and> selected_idx (move_selection_down \<lparr>query = lit ''x'', selected_idx = 0, max_display = 15,
       history = [lit ''ls''], filtered_history = []\<rparr>) = 0"
  using move_selection_down_index [of "\<lparr>query = [], selected_idx = 0, max_display = 15,
       history = [lit ''ls'', lit ''cd''], filtered_history = [lit ''ls'', lit ''cd'']\<rparr>"]
    move_selection_down_index [of "\<lparr>query = lit ''x'', selected_idx = 0, max_display = 15,
       history = [lit ''ls''], filtered_history = []\<rparr>"]
  by simp

text \<open>
  Claim C10. The arrow up and the arrow down change no field but the selected index: the
  query and the filtered list after the key are the ones before it. Reading and handling
  the three characters of the key gives the state moved up or down, and so does the whole
  pass when the screen could be drawn.
\<close>

theorem move_selection_frame:
  "read_and_handle rt ui (27 # 91 # 65 # keys) = Continue (move_selection_up ui) keys
   \<and> read_and_handle rt ui (27 # 91 # 66 # keys) = Continue (move_selection_down ui) keys
   \<and> (render_ui rt ui = Inr () \<longrightarrow>
        loop_body rt ui (27 # 91 # 65 # keys) = Continue (move_selection_up ui) keys
        \<and> loop_body rt ui (27 # 91 # 66 # keys) = Continue (move_selection_down ui) keys)
   \<and> move_selection_up ui = ui\<lparr>selected_idx := selected_idx (move_selection_up ui)\<rparr>
   \<and> move_selection_down ui = ui\<lparr>selected_idx := selected_idx (move_selection_down ui)\<rparr>
   \<and> query (move_selection_up ui) = query ui
   \<and> filtered_history (move_selection_up ui) = filtered_history ui
   \<and> query (move_selection_down ui) = query ui
   \<and> filtered_history (move_selection_down ui) = filtered_history ui"
  by (simp add: move_selection_up_def move_selection_down_def loop_body_def)

theorem move_selection_frame_witness:
  "render_ui sample_runtime \<lparr>query = lit ''c'', selected_idx = 1, max_display = 15,
       history = [lit ''ls'', lit ''cd'', lit ''cat''], filtered_history = [lit ''cd'', lit ''cat'']\<rparr>
     = Inr ()
   \<and> loop_body sample_runtime \<lparr>query = lit ''c'', selected_idx = 1, max_display = 15,
       history = [lit ''ls'', lit ''cd'', lit ''cat''], filtered_history = [lit ''cd'', lit ''cat'']\<rparr>
       [27, 91, 65]
     = Continue \<lparr>query = lit ''c'', selected_idx = 0, max_display = 15,
       history = [lit ''ls'', lit ''cd'', lit ''cat''], filtered_history = [lit ''cd'', lit ''cat'']\<rparr> []
   \<and> filtered_history (move_selection_down \<lparr>query = lit ''c'', selected_idx = 0,
       max_display = 15, history = [lit ''ls'', lit ''cd'', lit ''cat''],
       filtered_history = [lit ''cd'', lit ''cat'']\<rparr>) = [lit ''cd'', lit ''cat'']"
proof -
  have r: "render_ui sample_runtime \<lparr>query = lit ''c'', selected_idx = 1, max_display = 15,
       history = [lit ''ls'', lit ''cd'', lit ''cat''], filtered_history = [lit ''cd'', lit ''cat'']\<rparr>
     = Inr ()"
    by code_simp
  from r move_selection_frame [of sample_runtime "\<lparr>query = lit ''c'', selected_idx = 1, max_display = 15,
       history = [lit ''ls'', lit ''cd'', lit ''cat''], filtered_history = [lit ''cd'', lit ''cat'']\<rparr>" "[]"]
    move_selection_frame [of sample_runtime "\<lparr>query = lit ''c'', selected_idx = 0, max_display = 15,
       history = [lit ''ls'', lit ''cd'', lit ''cat''], filtered_history = [lit ''cd'', lit ''cat'']\<rparr>" "[]"]
  show ?thesis by (simp add: move_selection_up_def)
qed

subsection \<open>The Enter key\<close>

text \<open>What a carriage return or a line feed does at the head of the read: with the
  filtered list empty or the index out of range nothing changes and the loop goes on;
  with the index in range the command is announced, and the loop is left with the command
  only when the console took the announcement.\<close>

lemma enter_key:
  assumes "ch = 13 \<or> ch = 10"
  shows "read_and_handle rt ui (ch # keys) =
     (if filtered_history ui \<noteq> [] \<and> 0 \<le> selected_idx ui
          \<and> selected_idx ui < int (length (filtered_history ui))
      then (if markup_error rt (executing_line (filtered_history ui ! nat (selected_idx ui)))
            then Raise MarkupError
            else Break (filtered_history ui ! nat (selected_idx ui)))
      else Continue ui keys)"
  using assms by (auto simp: execute_command_def)

text \<open>
  Claim C7. With a non-empty filtered list and the index in range, Enter should end the
  session with the selected command. The history is fifteen commands \<open>c01\<close> to \<open>c15\<close> and,
  as the sixteenth, \<open>sed s/[/:]/_/g f\<close>. Typing \<open>z\<close>, deleting it and pressing the arrow
  down fifteen times selects the sixteenth command, which is below the rows that are
  drawn. On Enter the command is put into the markup of the line that announces it; the
  console reads \<open>[/:]\<close> as a closing tag that closes nothing and raises, so the session ends
  with \<^const>\<open>MarkupError\<close> and the command is not handed to the runner.
\<close>

theorem confirm_raises_on_markup:
  "interactive_loop sample_runtime (start_session
      [lit ''c01'', lit ''c02'', lit ''c03'', lit ''c04'', lit ''c05'', lit ''c06'',
      lit ''c07'', lit ''c08'', lit ''c09'', lit ''c10'', lit ''c11'', lit ''c12'',
      lit ''c13'', lit ''c14'', lit ''c15'', lit ''sed s/[/:]/_/g f''])
      ([122, 127] @ concat (replicate 15 [27, 91, 66]))
     = Waiting \<lparr>query = [], selected_idx = 15, max_display = 15,
         history = [lit ''c01'', lit ''c02'', lit ''c03'', lit ''c04'', lit ''c05'', lit ''c06'',
      lit ''c07'', lit ''c08'', lit ''c09'', lit ''c10'', lit ''c11'', lit ''c12'',
      lit ''c13'', lit ''c14'', lit ''c15'', lit ''sed s/[/:]/_/g f''],
         filtered_history = [lit ''c01'', lit ''c02'', lit ''c03'', lit ''c04'', lit ''c05'', lit ''c06'',
      lit ''c07'', lit ''c08'', lit ''c09'', lit ''c10'', lit ''c11'', lit ''c12'',
      lit ''c13'', lit ''c14'', lit ''c15'', lit ''sed s/[/:]/_/g f'']\<rparr>
   \<and> loop_body sample_runtime \<lparr>query = [], selected_idx = 15, max_display = 15,
         history = [lit ''c01'', lit ''c02'', lit ''c03'', lit ''c04'', lit ''c05'', lit ''c06'',
      lit ''c07'', lit ''c08'', lit ''c09'', lit ''c10'', lit ''c11'', lit ''c12'',
      lit ''c13'', lit ''c14'', lit ''c15'', lit ''sed s/[/:]/_/g f''],
         filtered_history = [lit ''c01'', lit ''c02'', lit ''c03'', lit ''c04'', lit ''c05'', lit ''c06'',
      lit ''c07'', lit ''c08'', lit ''c09'', lit ''c10'', lit ''c11'', lit ''c12'',
      lit ''c13'', lit ''c14'', lit ''c15'', lit ''sed s/[/:]/_/g f'']\<rparr> [13]
     = Raise MarkupError
   \<and> interactive_loop sample_runtime (start_session
      [lit ''c01'', lit ''c02'', lit ''c03'', lit ''c04'', lit ''c05'', lit ''c06'',
      lit ''c07'', lit ''c08'', lit ''c09'', lit ''c10'', lit ''c11'', lit ''c12'',
      lit ''c13'', lit ''c14'', lit ''c15'', lit ''sed s/[/:]/_/g f''])
      ([122, 127] @ concat (replicate 15 [27, 91, 66]) @ [13])
     = Raised MarkupError"
  by code_simp

subsection \<open>The exit status\<close>

lemma read_and_handle_append:
  "read_and_handle rt ui keys = Continue ui' keys' \<Longrightarrow>
   read_and_handle rt ui (keys @ later) = Continue ui' (keys' @ later)"
  by (cases keys) (auto split: if_splits list.splits sum.splits)

lemma loop_body_append:
  "loop_body rt ui keys = Continue ui' keys' \<Longrightarrow>
   loop_body rt ui (keys @ later) = Continue ui' (keys' @ later)"
  by (auto simp: loop_body_def read_and_handle_append split: sum.splits)

lemma read_and_handle_AwaitKey: "read_and_handle rt ui keys = AwaitKey \<longleftrightarrow> keys = []"
  by (cases keys) (auto split: if_splits list.splits sum.splits)

lemma loop_body_AwaitKey:
  "loop_body rt ui keys = AwaitKey \<longleftrightarrow> render_ui rt ui = Inr () \<and> keys = []"
  by (auto simp: loop_body_def read_and_handle_AwaitKey split: sum.splits)

text \<open>A session that waits for a key has drawn its screen, and it goes on from there
  with the keys typed later.\<close>

lemma interactive_loop_Waiting_render:
  "interactive_loop rt ui typed = Waiting ui1 \<Longrightarrow> render_ui rt ui1 = Inr ()"
proof (induction rt ui typed rule: interactive_loop.induct)
  case (1 rt ui keys)
  show ?case
  proof (cases "loop_body rt ui keys")
    case (Continue ui' keys')
    with "1.prems" have "interactive_loop rt ui' keys' = Waiting ui1"
      by (simp add: interactive_loop.simps [of rt ui keys])
    with "1.IH" [OF Continue] show ?thesis by simp
  next
    case AwaitKey
    then have "render_ui rt ui = Inr ()" by (simp add: loop_body_AwaitKey)
    moreover from AwaitKey "1.prems" have "ui1 = ui"
      by (simp add: interactive_loop.simps [of rt ui keys])
    ultimately show ?thesis by simp
  qed (use "1.prems" in \<open>simp_all add: interactive_loop.simps [of rt ui keys]\<close>)
qed

lemma interactive_loop_append:
  "interactive_loop rt ui typed = Waiting ui1 \<Longrightarrow>
   interactive_loop rt ui (typed @ later) = interactive_loop rt ui1 later"
proof (induction rt ui typed rule: interactive_loop.induct)
  case (1 rt ui keys)
  show ?case
  proof (cases "loop_body rt ui keys")
    case (Continue ui' keys')
    with "1.prems" have "interactive_loop rt ui' keys' = Waiting ui1"
      by (simp add: interactive_loop.simps [of rt ui keys])
    with "1.IH" [OF Continue]
    have "interactive_loop rt ui' (keys' @ later) = interactive_loop rt ui1 later"
      by simp
    with loop_body_append [OF Continue, of later] show ?thesis
      by (simp add: interactive_loop.simps [of rt ui "keys @ later"])
  next
    case AwaitKey
    then have "keys = []" by (simp add: loop_body_AwaitKey)
    moreover from AwaitKey "1.prems" have "ui1 = ui"
      by (simp add: interactive_loop.simps [of rt ui keys])
    ultimately show ?thesis by simp
  qed (use "1.prems" in \<open>simp_all add: interactive_loop.simps [of rt ui keys]\<close>)
qed

lemma interrupt_raises:
  "render_ui rt ui = Inr () \<Longrightarrow> interactive_loop rt ui (3 # later) = Raised KeyboardInterrupt"
  by (simp add: interactive_loop.simps [of rt ui "3 # later"] loop_body_def)

text \<open>
  Claim C9. When the loaded history is empty the process exits with status 1, whatever is
  typed. When the history is not empty and the session waits for a key, the interrupt
  character makes the process exit with status 0, whatever is typed after it.
\<close>

theorem exit_status:
  "(load_history files = [] \<longrightarrow> run rt files keys = Exit 1)
   \<and> (load_history files \<noteq> []
        \<and> interactive_loop rt (start_session (load_history files)) typed = Waiting ui \<longrightarrow>
      run rt files (typed @ 3 # later) = Exit 0)"
  by (auto simp: run_def Let_def interactive_loop_append interrupt_raises
      dest: interactive_loop_Waiting_render)

theorem exit_status_witness:
  "load_history [Inl SourceUnreadable, Inr []] = []
   \<and> run sample_runtime [Inl SourceUnreadable, Inr []] (lit ''ls'') = Exit 1
   \<and> load_history [Inr [lit ''ls'', lit ''cd'']] \<noteq> []
   \<and> interactive_loop sample_runtime (start_session (load_history [Inr [lit ''ls'', lit ''cd'']]))
        (lit ''c'')
       = Waiting \<lparr>query = lit ''c'', selected_idx = 0, max_display = 15,
           history = [lit ''ls'', lit ''cd''], filtered_history = [lit ''cd'']\<rparr>
   \<and> run sample_runtime [Inr [lit ''ls'', lit ''cd'']] (lit ''c'' @ 3 # lit ''d'') = Exit 0"
proof -
  have e: "load_history [Inl SourceUnreadable, Inr []] = []" by code_simp
  have n: "load_history [Inr [lit ''ls'', lit ''cd'']] \<noteq> []" by code_simp
  have w: "interactive_loop sample_runtime (start_session (load_history [Inr [lit ''ls'', lit ''cd'']]))
        (lit ''c'')
       = Waiting \<lparr>query = lit ''c'', selected_idx = 0, max_display = 15,
           history = [lit ''ls'', lit ''cd''], filtered_history = [lit ''cd'']\<rparr>"
    by code_simp
  from exit_status [of "[Inl SourceUnreadable, Inr []]" sample_runtime "lit ''ls''"] e
  have 1: "run sample_runtime [Inl SourceUnreadable, Inr []] (lit ''ls'') = Exit 1" by blast
  from exit_status [of "[Inr [lit ''ls'', lit ''cd'']]" sample_runtime _ "lit ''c''" _ "lit ''d''"] n w
  have 2: "run sample_runtime [Inr [lit ''ls'', lit ''cd'']] (lit ''c'' @ 3 # lit ''d'') = Exit 0"
    by blast
  from e 1 n w 2 show ?thesis by blast
qed

text \<open>A session whose first screen the console refuses never waits for a key: the
  exception leaves \<^const>\<open>run\<close> uncaught, whatever is typed.\<close>

lemma run_markup_error_example:
  "run sample_runtime [Inr [lit ''echo [/red]'']] (3 # later) = Uncaught MarkupError"
  by (simp add: run_def Let_def) code_simp

subsection \<open>The execution log\<close>

lemma lit_separators:
  "lit ''-'' = [45]" "lit '' '' = [32]" "lit '':'' = [58]" "lit ''['' = [91]"
  "lit ''] '' = [93, 32]"
  by (simp_all add: lit_def)

lemma is_digit_digit: "d < 10 \<Longrightarrow> is_digit (digit d)"
  by (simp add: is_digit_def digit_def)

lemma digit_not_newline: "d < 10 \<Longrightarrow> digit d \<noteq> 10"
  by (simp add: digit_def)

lemma decimal_1: "n < 10 \<Longrightarrow> decimal n = [digit n]"
  by (simp add: decimal.simps)

lemma decimal_2: "10 \<le> n \<Longrightarrow> n < 100 \<Longrightarrow> decimal n = [digit (n div 10), digit (n mod 10)]"
  by (subst decimal.simps) (simp add: decimal_1)

lemma decimal_3:
  "100 \<le> n \<Longrightarrow> n < 1000 \<Longrightarrow>
   decimal n = [digit (n div 100), digit (n div 10 mod 10), digit (n mod 10)]"
  by (subst decimal.simps) (simp add: decimal_2 div_mult2_eq [symmetric])

lemma decimal_4:
  "1000 \<le> n \<Longrightarrow> n < 10000 \<Longrightarrow>
   decimal n = [digit (n div 1000), digit (n div 100 mod 10), digit (n div 10 mod 10),
                digit (n mod 10)]"
  by (subst decimal.simps) (simp add: decimal_3 div_mult2_eq [symmetric])

lemma zero_pad_2: "n < 100 \<Longrightarrow> zero_pad 2 n = [digit (n div 10), digit (n mod 10)]"
  by (cases "n < 10") (simp_all add: zero_pad_def decimal_1 decimal_2 digit_def)

lemma zero_pad_4:
  "1000 \<le> n \<Longrightarrow> n < 10000 \<Longrightarrow>
   zero_pad 4 n = [digit (n div 1000), digit (n div 100 mod 10), digit (n div 10 mod 10),
                   digit (n mod 10)]"
  by (simp add: zero_pad_def decimal_4)

lemma strftime_digits:
  assumes "valid_datetime now"
  shows "strftime now =
     [digit (year now div 1000), digit (year now div 100 mod 10),
      digit (year now div 10 mod 10), digit (year now mod 10), 45,
      digit (month now div 10), digit (month now mod 10), 45,
      digit (day now div 10), digit (day now mod 10), 32,
      digit (hour now div 10), digit (hour now mod 10), 58,
      digit (minute now div 10), digit (minute now mod 10), 58,
      digit (second now div 10), digit (second now mod 10)]"
proof -
  from assms have y: "1000 \<le> year now" "year now < 10000"
    and r: "month now < 100" "day now < 100" "hour now < 100" "minute now < 100"
           "second now < 100"
    by (simp_all add: valid_datetime_def)
  show ?thesis
    by (simp add: strftime_def lit_separators zero_pad_4 [OF y] zero_pad_2 [OF r(1)]
        zero_pad_2 [OF r(2)] zero_pad_2 [OF r(3)] zero_pad_2 [OF r(4)] zero_pad_2 [OF r(5)])
qed

lemma valid_datetime_bounds:
  assumes "valid_datetime now"
  shows "year now div 1000 < 10 \<and> month now div 10 < 10 \<and> day now div 10 < 10
         \<and> hour now div 10 < 10 \<and> minute now div 10 < 10 \<and> second now div 10 < 10"
proof -
  from assms have "year now < 10000" "month now < 100" "day now < 100" "hour now < 100"
    "minute now < 100" "second now < 100"
    by (simp_all add: valid_datetime_def)
  then show ?thesis by (simp add: less_mult_imp_div_less)
qed

lemma strftime_shape:
  assumes "valid_datetime now"
  shows "timestamp_shape (strftime now)"
proof -
  have "year now div 1000 < 10" "month now div 10 < 10" "day now div 10 < 10"
    "hour now div 10 < 10" "minute now div 10 < 10" "second now div 10 < 10"
    using valid_datetime_bounds [OF assms] by simp_all
  then show ?thesis
    by (simp add: strftime_digits [OF assms] timestamp_shape_def is_digit_digit)
qed

lemma strftime_no_newline:
  assumes "valid_datetime now"
  shows "10 \<notin> set (strftime now)"
proof -
  have "year now div 1000 < 10" "month now div 10 < 10" "day now div 10 < 10"
    "hour now div 10 < 10" "minute now div 10 < 10" "second now div 10 < 10"
    using valid_datetime_bounds [OF assms] by simp_all
  then have "\<forall>c \<in> set (strftime now). c \<noteq> 10"
    by (simp add: strftime_digits [OF assms] digit_not_newline)
  then show ?thesis by blast
qed

lemma log_entry_one_line:
  assumes "valid_datetime now" and "10 \<notin> set command"
  shows "count_list (log_entry now command) 10 = 1"
proof -
  have "count_list (strftime now) 10 = 0"
    using strftime_no_newline [OF assms(1)] by (simp add: count_list_0_iff)
  moreover have "count_list command 10 = 0"
    using assms(2) by (simp add: count_list_0_iff)
  ultimately show ?thesis by (simp add: log_entry_def lit_separators)
qed

lemma log_command_swallows: "fst (log_command fault now command log_file) = Inr ()"
  by (cases fault) (simp_all add: log_command_def append_to_log_def)

lemma log_command_appends:
  "snd (log_command fault now command log_file) =
     log_file @ (case fault of NoFault \<Rightarrow> log_entry now command | OpenFails \<Rightarrow> []
                 | WriteFails n \<Rightarrow> take n (log_entry now command))"
  by (cases fault) (simp_all add: log_command_def append_to_log_def)

text \<open>
  Claim C8. Running a command with logging on, when the file system lets the write through,
  leaves the log file as it was with \<open>[\<close>, the time stamp, \<open>] \<close>, the command and a newline
  added at its end; for a date with a four-digit year the time stamp has the shape
  \<open>YYYY-MM-DD HH:MM:SS\<close>, and for a command without a newline what is added is one line.
  Whatever the file system does to the write, logging raises nothing, the answer of
  \<^const>\<open>execute\<close> is the one the command's return code gives, and the old content of the
  log file is still there at the front.
\<close>

theorem execute_logs_one_line:
  "snd (execute NoFault now outcome command True log_file)
     = log_file @ lit ''['' @ strftime now @ lit ''] '' @ command @ [10]
   \<and> (valid_datetime now \<longrightarrow> timestamp_shape (strftime now))
   \<and> (valid_datetime now \<and> 10 \<notin> set command \<longrightarrow>
        count_list (lit ''['' @ strftime now @ lit ''] '' @ command @ [10]) 10 = 1)
   \<and> fst (log_command fault now command log_file) = Inr ()
   \<and> fst (execute fault now outcome command True log_file)
       = Inr (case outcome of Inl e \<Rightarrow> False | Inr returncode \<Rightarrow> returncode = 0)
   \<and> prefix log_file (snd (execute fault now outcome command True log_file))"
proof -
  obtain r c where lc: "log_command fault now command log_file = (r, c)"
    by (cases "log_command fault now command log_file")
  from lc log_command_swallows [of fault now command log_file] have r: "r = Inr ()" by simp
  from lc log_command_appends [of fault now command log_file] have c: "prefix log_file c"
    by simp
  obtain r0 c0 where lc0: "log_command NoFault now command log_file = (r0, c0)"
    by (cases "log_command NoFault now command log_file")
  from lc0 log_command_swallows [of NoFault now command log_file] have r0: "r0 = Inr ()"
    by simp
  from lc0 log_command_appends [of NoFault now command log_file]
  have c0: "c0 = log_file @ log_entry now command" by simp
  have 1: "snd (execute NoFault now outcome command True log_file)
           = log_file @ lit ''['' @ strftime now @ lit ''] '' @ command @ [10]"
    using lc0 r0 c0 by (simp add: execute_def log_entry_def split: sum.splits)
  have 2: "valid_datetime now \<longrightarrow> timestamp_shape (strftime now)"
    by (simp add: strftime_shape)
  have 3: "valid_datetime now \<and> 10 \<notin> set command \<longrightarrow>
            count_list (lit ''['' @ strftime now @ lit ''] '' @ command @ [10]) 10 = 1"
    using log_entry_one_line [of now command] by (simp add: log_entry_def)
  have 4: "fst (log_command fault now command log_file) = Inr ()"
    by (rule log_command_swallows)
  have 5: "fst (execute fault now outcome command True log_file)
           = Inr (case outcome of Inl e \<Rightarrow> False | Inr returncode \<Rightarrow> returncode = 0)"
    using lc r by (simp add: execute_def split: sum.splits)
  have 6: "prefix log_file (snd (execute fault now outcome command True log_file))"
    using lc r c by (simp add: execute_def split: sum.splits)
  from 1 2 3 4 5 6 show ?thesis by blast
qed

theorem execute_logs_one_line_witness:
  "valid_datetime \<lparr>year = 2026, month = 11, day = 3, hour = 9, minute = 5, second = 0\<rparr>
   \<and> 10 \<notin> set (lit ''git status'')
   \<and> snd (execute NoFault \<lparr>year = 2026, month = 11, day = 3, hour = 9, minute = 5, second = 0\<rparr>
            (Inr 0) (lit ''git status'') True (lit ''old''))
       = lit ''old[2026-11-03 09:05:00] git status'' @ [10]
   \<and> timestamp_shape (lit ''2026-11-03 09:05:00'')
   \<and> count_list (lit ''[2026-11-03 09:05:00] git status'' @ [10]) 10 = 1
   \<and> fst (execute (WriteFails 3) \<lparr>year = 2026, month = 11, day = 3, hour = 9, minute = 5, second = 0\<rparr>
            (Inr 0) (lit ''git status'') True (lit ''old'')) = Inr True"
proof -
  have v: "valid_datetime \<lparr>year = 2026, month = 11, day = 3, hour = 9, minute = 5, second = 0\<rparr>"
    by code_simp
  have n: "10 \<notin> set (lit ''git status'')" by code_simp
  have s: "strftime \<lparr>year = 2026, month = 11, day = 3, hour = 9, minute = 5, second = 0\<rparr>
             = lit ''2026-11-03 09:05:00''"
    by code_simp
  from execute_logs_one_line [of "\<lparr>year = 2026, month = 11, day = 3, hour = 9, minute = 5, second = 0\<rparr>"
      "Inr 0" "lit ''git status''" "lit ''old''" "WriteFails 3"] v n
  show ?thesis by (simp add: s lit_def)
qed

end
